theory Spec2Isabelle
  imports Main
begin

section \<open>Data model of the landing page\<close>

text \<open>
  The two source files (\<^verbatim>\<open>script.js\<close> and its rewrite, whose header comment calls it
  \<^verbatim>\<open>site-optimized.js\<close>) drive the same page. Definitions translated from
  \<^verbatim>\<open>script.js\<close> keep the source's names; definitions translated from the rewrite carry
  the suffix \<open>_opt\<close>.

  Scroll offsets and layout metrics are modelled as whole pixels (\<open>int\<close>): the source
  only compares them and adds the constant 100, which is exact on integral doubles.
  A DOM element that a selector may fail to find is an \<open>option\<close>; \<open>None\<close> is JavaScript's
  \<^verbatim>\<open>null\<close>. A class on an element is a boolean (the class is present or not).
\<close>

datatype js_error = TypeError | ReferenceError

record section_el =
  sec_id :: string
  offsetTop :: int
  offsetHeight :: int

record nav_link =
  href :: "string option"
  link_active :: bool

datatype routine = UpdateHeader | SetActiveLink | ToggleBackToTopButton

record page =
  scrollY :: int
  header_scrolled :: bool
  header_hide :: bool
  navMenu :: "bool option"
  mobileMenuBtn :: "bool option"
  backToTopBtn :: "bool option"
  sections :: "section_el list"
  navLinks :: "nav_link list"
  lastScroll :: int
  headerHeight :: int
  ticking :: bool
  nav_ticking :: bool
  rafQueue :: "routine list"
  calls :: "routine list"

text \<open>
  \<open>navMenu\<close>: \<open>Some a\<close> when \<^verbatim>\<open>#mainNav\<close> exists, \<open>a\<close> its class \<^verbatim>\<open>active\<close>.
  \<open>mobileMenuBtn\<close>: \<open>Some e\<close> when the button exists, \<open>e\<close> whether its
  \<^verbatim>\<open>aria-expanded\<close> attribute is the string \<^verbatim>\<open>"true"\<close>.
  \<open>backToTopBtn\<close>: \<open>Some s\<close> when \<^verbatim>\<open>#backToTop\<close> exists, \<open>s\<close> its class \<^verbatim>\<open>show\<close>.
  \<open>lastScroll\<close>, \<open>headerHeight\<close>, \<open>ticking\<close> are the closure variables of the header
  block; \<open>nav_ticking\<close> is the \<^verbatim>\<open>ticking\<close> of the rewrite's \<^verbatim>\<open>initActiveNavOnScroll\<close>.
  \<open>rafQueue\<close> holds the callbacks handed to \<^verbatim>\<open>requestAnimationFrame\<close> and not yet run;
  \<open>calls\<close> is a log of the routines invoked so far (it is never read by the code).
\<close>

text \<open>\<^verbatim>\<open>window.pageYOffset\<close> is an alias of \<^verbatim>\<open>window.scrollY\<close>.\<close>

definition pageYOffset :: "page \<Rightarrow> int" where
  "pageYOffset p = scrollY p"

text \<open>JavaScript's \<^verbatim>\<open>a || b\<close> on numbers: \<^verbatim>\<open>0\<close> is falsy.\<close>

definition js_or :: "int \<Rightarrow> int \<Rightarrow> int" where
  "js_or a b = (if a \<noteq> 0 then a else b)"

section \<open>Header and back-to-top update\<close>

text \<open>\<^verbatim>\<open>updateHeader\<close> of \<^verbatim>\<open>script.js\<close> (lines 227-252).\<close>

definition updateHeader :: "page \<Rightarrow> page" where
  "updateHeader p =
    (let currentScroll = pageYOffset p;
         p1 = p\<lparr>header_scrolled := currentScroll > 50\<rparr>;
         p2 = (if navMenu p1 = None \<or> navMenu p1 = Some False
               then (if currentScroll > lastScroll p1 \<and> currentScroll > headerHeight p1
                     then p1\<lparr>header_hide := True\<rparr>
                     else p1\<lparr>header_hide := False\<rparr>)
               else p1);
         p3 = (case backToTopBtn p2 of
                 None \<Rightarrow> p2
               | Some _ \<Rightarrow> p2\<lparr>backToTopBtn := Some (currentScroll > 300)\<rparr>)
     in p3\<lparr>lastScroll := (if currentScroll \<le> 0 then 0 else currentScroll),
            ticking := False\<rparr>)"

text \<open>\<^verbatim>\<open>updateHeader\<close> of the rewrite (lines 182-204).\<close>

definition updateHeader_opt :: "page \<Rightarrow> page" where
  "updateHeader_opt p =
    (let currentScroll = js_or (pageYOffset p) (js_or (scrollY p) 0);
         p1 = p\<lparr>header_scrolled := currentScroll > 50\<rparr>;
         p2 = (if navMenu p1 = None \<or> navMenu p1 = Some False
               then (if currentScroll > lastScroll p1 \<and> currentScroll > headerHeight p1
                     then p1\<lparr>header_hide := True\<rparr>
                     else p1\<lparr>header_hide := False\<rparr>)
               else p1);
         p3 = (case backToTopBtn p2 of
                 None \<Rightarrow> p2
               | Some _ \<Rightarrow> p2\<lparr>backToTopBtn := Some (currentScroll > 300)\<rparr>)
     in p3\<lparr>lastScroll := max 0 currentScroll, ticking := False\<rparr>)"

text \<open>
  \<^verbatim>\<open>toggleBackToTopButton\<close> of \<^verbatim>\<open>script.js\<close> (lines 526-532). The global
  \<^verbatim>\<open>backToTopButton\<close> is dereferenced without a null check in both branches.
\<close>

definition toggleBackToTopButton :: "page \<Rightarrow> js_error + page" where
  "toggleBackToTopButton p =
    (if pageYOffset p > 300
     then (case backToTopBtn p of
             None \<Rightarrow> Inl TypeError
           | Some _ \<Rightarrow> Inr (p\<lparr>backToTopBtn := Some True\<rparr>))
     else (case backToTopBtn p of
             None \<Rightarrow> Inl TypeError
           | Some _ \<Rightarrow> Inr (p\<lparr>backToTopBtn := Some False\<rparr>)))"

section \<open>Active navigation link\<close>

text \<open>
  \<^verbatim>\<open>setActiveLink\<close> (\<^verbatim>\<open>script.js\<close> lines 283-303) and \<^verbatim>\<open>setActive\<close> (rewrite, lines
  330-346) visit the \<^verbatim>\<open>section[id]\<close> elements in document order; for a section that
  contains the scroll position they toggle the class \<^verbatim>\<open>active\<close> on every nav link.
\<close>

definition in_view :: "int \<Rightarrow> section_el \<Rightarrow> bool" where
  "in_view scrollPosition s \<longleftrightarrow>
     scrollPosition \<ge> offsetTop s \<and> scrollPosition < offsetTop s + offsetHeight s"

definition toggle_links :: "string \<Rightarrow> nav_link list \<Rightarrow> nav_link list" where
  "toggle_links sectionId ls =
     map (\<lambda>l. l\<lparr>link_active := (href l = Some (CHR ''#'' # sectionId))\<rparr>) ls"

fun each_section :: "int \<Rightarrow> section_el list \<Rightarrow> nav_link list \<Rightarrow> nav_link list" where
  "each_section scrollPosition [] ls = ls"
| "each_section scrollPosition (s # ss) ls =
     each_section scrollPosition ss
       (if in_view scrollPosition s then toggle_links (sec_id s) ls else ls)"

definition setActiveLink :: "page \<Rightarrow> page" where
  "setActiveLink p =
     p\<lparr>navLinks := each_section (scrollY p + 100) (sections p) (navLinks p)\<rparr>"

definition setActive_opt :: "page \<Rightarrow> page" where
  "setActive_opt p =
     p\<lparr>navLinks := each_section (scrollY p + 100) (sections p) (navLinks p),
       nav_ticking := False\<rparr>"

section \<open>Scroll events and animation frames\<close>

definition invoked :: "routine \<Rightarrow> page \<Rightarrow> page" where
  "invoked r p = p\<lparr>calls := calls p @ [r]\<rparr>"

text \<open>\<^verbatim>\<open>onScroll\<close> of the header block, the same in both files.\<close>

definition onScroll :: "page \<Rightarrow> page" where
  "onScroll p =
     (if \<not> ticking p
      then p\<lparr>rafQueue := rafQueue p @ [UpdateHeader], ticking := True\<rparr>
      else p)"

text \<open>\<^verbatim>\<open>onScroll\<close> of the rewrite's \<^verbatim>\<open>initActiveNavOnScroll\<close> (lines 348-353).\<close>

definition onScroll_nav_opt :: "page \<Rightarrow> page" where
  "onScroll_nav_opt p =
     (if \<not> nav_ticking p
      then p\<lparr>rafQueue := rafQueue p @ [SetActiveLink], nav_ticking := True\<rparr>
      else p)"

text \<open>
  One \<^verbatim>\<open>scroll\<close> event in \<^verbatim>\<open>script.js\<close>. Three listeners are registered on the window,
  in this order: \<^verbatim>\<open>toggleBackToTopButton\<close> (line 541, when the script is evaluated),
  \<^verbatim>\<open>onScroll\<close> (line 261) and \<^verbatim>\<open>setActiveLink\<close> (line 307), the last two inside the
  \<^verbatim>\<open>DOMContentLoaded\<close> handler. A listener that throws does not stop the dispatch.
\<close>

definition scroll_event :: "page \<Rightarrow> page" where
  "scroll_event p =
     (let p0 = invoked ToggleBackToTopButton p;
          p1 = (case toggleBackToTopButton p0 of Inl _ \<Rightarrow> p0 | Inr q \<Rightarrow> q);
          p2 = onScroll p1
      in setActiveLink (invoked SetActiveLink p2))"

text \<open>
  One \<^verbatim>\<open>scroll\<close> event in the rewrite: the header's \<^verbatim>\<open>onScroll\<close>, then the nav
  \<^verbatim>\<open>onScroll\<close>, which \<^verbatim>\<open>initActiveNavOnScroll\<close> registers only when there are
  sections and nav links.
\<close>

definition scroll_event_opt :: "page \<Rightarrow> page" where
  "scroll_event_opt p =
     (let p1 = onScroll p
      in if sections p1 = [] \<or> navLinks p1 = [] then p1 else onScroll_nav_opt p1)"

text \<open>
  An animation frame runs the callbacks queued so far. \<^verbatim>\<open>script.js\<close> only ever hands
  \<^verbatim>\<open>updateHeader\<close> to \<^verbatim>\<open>requestAnimationFrame\<close>; the rewrite hands \<^verbatim>\<open>updateHeader\<close>
  and \<^verbatim>\<open>setActive\<close>.
\<close>

fun run_callback :: "page \<Rightarrow> routine \<Rightarrow> page" where
  "run_callback p UpdateHeader = updateHeader (invoked UpdateHeader p)"
| "run_callback p SetActiveLink = p"
| "run_callback p ToggleBackToTopButton = p"

fun run_callback_opt :: "page \<Rightarrow> routine \<Rightarrow> page" where
  "run_callback_opt p UpdateHeader = updateHeader_opt (invoked UpdateHeader p)"
| "run_callback_opt p SetActiveLink = setActive_opt (invoked SetActiveLink p)"
| "run_callback_opt p ToggleBackToTopButton = p"

definition frame :: "page \<Rightarrow> page" where
  "frame p = foldl run_callback (p\<lparr>rafQueue := []\<rparr>) (rafQueue p)"

definition frame_opt :: "page \<Rightarrow> page" where
  "frame_opt p = foldl run_callback_opt (p\<lparr>rafQueue := []\<rparr>) (rafQueue p)"

text \<open>
  The mobile menu (\<^verbatim>\<open>script.js\<close> lines 181-200, rewrite lines 231-244): the click
  listener exists only when both the button and the menu exist.
\<close>

definition toggleMobileMenu :: "bool \<Rightarrow> page \<Rightarrow> page" where
  "toggleMobileMenu sh p =
     p\<lparr>navMenu := map_option (\<lambda>_. sh) (navMenu p),
       mobileMenuBtn := map_option (\<lambda>_. sh) (mobileMenuBtn p)\<rparr>"

definition menu_click :: "page \<Rightarrow> page" where
  "menu_click p =
     (case (mobileMenuBtn p, navMenu p) of
        (Some isExpanded, Some _) \<Rightarrow> toggleMobileMenu (\<not> isExpanded) p
      | _ \<Rightarrow> p)"

datatype event = Scroll int | Frame | MenuClick

fun step :: "page \<Rightarrow> event \<Rightarrow> page" where
  "step p (Scroll v) = scroll_event (p\<lparr>scrollY := v\<rparr>)"
| "step p Frame = frame p"
| "step p MenuClick = menu_click p"

fun step_opt :: "page \<Rightarrow> event \<Rightarrow> page" where
  "step_opt p (Scroll v) = scroll_event_opt (p\<lparr>scrollY := v\<rparr>)"
| "step_opt p Frame = frame_opt p"
| "step_opt p MenuClick = menu_click p"

text \<open>
  The page right after initialisation, before \<^verbatim>\<open>updateHeader()\<close> is called once
  directly (line 262, rewrite line 214): a header of height 80, a closed mobile menu, a
  hidden back-to-top button, nothing scheduled.
\<close>

definition page0 :: page where
  "page0 = \<lparr>scrollY = 0, header_scrolled = False, header_hide = False,
            navMenu = Some False, mobileMenuBtn = Some False, backToTopBtn = Some False,
            sections = [], navLinks = [], lastScroll = 0, headerHeight = 80,
            ticking = False, nav_ticking = False, rafQueue = [], calls = []\<rparr>"

subsection \<open>Example pages\<close>

text \<open>
  Two pages for the examples: a page whose sections follow one another, and a page with
  a section nested in another one (both contain the position 150).
\<close>

definition page_flat :: page where
  "page_flat = page0\<lparr>
     sections := [\<lparr>sec_id = ''hero'', offsetTop = 0, offsetHeight = 600\<rparr>,
                  \<lparr>sec_id = ''pricing'', offsetTop = 600, offsetHeight = 800\<rparr>],
     navLinks := [\<lparr>href = Some ''#hero'', link_active = True\<rparr>,
                  \<lparr>href = Some ''#pricing'', link_active = False\<rparr>]\<rparr>"

definition page_nested :: page where
  "page_nested = page0\<lparr>
     scrollY := 50,
     sections := [\<lparr>sec_id = ''a'', offsetTop = 0, offsetHeight = 1000\<rparr>,
                  \<lparr>sec_id = ''b'', offsetTop = 100, offsetHeight = 200\<rparr>],
     navLinks := [\<lparr>href = Some ''#a'', link_active = False\<rparr>,
                  \<lparr>href = Some ''#b'', link_active = False\<rparr>]\<rparr>"

subsection \<open>Runs of scroll events\<close>

text \<open>A burst of scroll events, given by the offsets the window is scrolled to.\<close>

definition scrolls_opt :: "page \<Rightarrow> int list \<Rightarrow> page" where
  "scrolls_opt p vs = foldl step_opt p (map Scroll vs)"

definition scrolls :: "page \<Rightarrow> int list \<Rightarrow> page" where
  "scrolls p vs = foldl step p (map Scroll vs)"

text \<open>
  The invariant of the rewrite's two flags: a callback is in the queue at most once, and
  only while its flag is set.
\<close>

definition coalesced :: "page \<Rightarrow> bool" where
  "coalesced p \<longleftrightarrow>
     distinct (rafQueue p)
     \<and> (ticking p \<or> UpdateHeader \<notin> set (rafQueue p))
     \<and> (nav_ticking p \<or> SetActiveLink \<notin> set (rafQueue p))"

section \<open>Interval timers of the hero slider and the countdown\<close>

text \<open>
  The platform's timer table: \<^verbatim>\<open>setInterval\<close> returns a fresh positive handle and the
  timer stays live until \<^verbatim>\<open>clearInterval\<close> is called with that handle;
  \<^verbatim>\<open>clearInterval\<close> of anything else does nothing. Each live timer is tagged with the
  behaviour whose callback it runs (\<^verbatim>\<open>nextSlide\<close> or \<^verbatim>\<open>updateCountdown\<close>).
\<close>

datatype behavior = HeroSlide | Countdown

record timers =
  live :: "(nat \<times> behavior) list"
  nextId :: nat
  slideTimer :: "nat option"

definition setInterval :: "behavior \<Rightarrow> timers \<Rightarrow> nat \<times> timers" where
  "setInterval b s = (nextId s, s\<lparr>live := live s @ [(nextId s, b)], nextId := nextId s + 1\<rparr>)"

definition clearInterval :: "nat option \<Rightarrow> timers \<Rightarrow> timers" where
  "clearInterval h s =
     (case h of None \<Rightarrow> s | Some t \<Rightarrow> s\<lparr>live := filter (\<lambda>x. fst x \<noteq> t) (live s)\<rparr>)"

definition live_of :: "behavior \<Rightarrow> timers \<Rightarrow> nat list" where
  "live_of b s = map fst (filter (\<lambda>x. snd x = b) (live s))"

datatype timer_event = MouseEnter | MouseLeave | Hidden | Visible

text \<open>
  \<^verbatim>\<open>script.js\<close>, \<^verbatim>\<open>initHeroImageSlider\<close> (lines 98-118), for a slider with at least two
  images: the timer is started at once; \<^verbatim>\<open>mouseleave\<close> and a \<^verbatim>\<open>visibilitychange\<close> to
  visible assign a new timer to \<^verbatim>\<open>slideTimer\<close> without clearing the one it holds.
\<close>

definition start_slide :: "timers \<Rightarrow> timers" where
  "start_slide s = (case setInterval HeroSlide s of (t, s') \<Rightarrow> s'\<lparr>slideTimer := Some t\<rparr>)"

definition initHeroImageSlider :: "timers \<Rightarrow> timers" where
  "initHeroImageSlider s = start_slide s"

fun slider_event :: "timers \<Rightarrow> timer_event \<Rightarrow> timers" where
  "slider_event s MouseEnter = clearInterval (slideTimer s) s"
| "slider_event s MouseLeave = start_slide s"
| "slider_event s Hidden = clearInterval (slideTimer s) s"
| "slider_event s Visible = start_slide s"

text \<open>
  The rewrite (lines 127-163): \<^verbatim>\<open>slideTimer\<close> starts as \<^verbatim>\<open>null\<close>; \<^verbatim>\<open>start\<close> clears a
  held timer before it sets a new one, \<^verbatim>\<open>stop\<close> clears and forgets it. The test
  \<^verbatim>\<open>if (slideTimer)\<close> is false for \<^verbatim>\<open>null\<close> and for the number 0.
\<close>

definition truthy :: "nat option \<Rightarrow> bool" where
  "truthy h = (case h of None \<Rightarrow> False | Some t \<Rightarrow> t \<noteq> 0)"

definition start_opt :: "timers \<Rightarrow> timers" where
  "start_opt s =
     (let s1 = (if truthy (slideTimer s) then clearInterval (slideTimer s) s else s)
      in case setInterval HeroSlide s1 of (t, s2) \<Rightarrow> s2\<lparr>slideTimer := Some t\<rparr>)"

definition stop_opt :: "timers \<Rightarrow> timers" where
  "stop_opt s =
     (if truthy (slideTimer s)
      then (clearInterval (slideTimer s) s)\<lparr>slideTimer := None\<rparr>
      else s)"

definition initHeroImageSlider_opt :: "timers \<Rightarrow> timers" where
  "initHeroImageSlider_opt s = start_opt (s\<lparr>slideTimer := None\<rparr>)"

fun slider_event_opt :: "timers \<Rightarrow> timer_event \<Rightarrow> timers" where
  "slider_event_opt s MouseEnter = stop_opt s"
| "slider_event_opt s MouseLeave = start_opt s"
| "slider_event_opt s Hidden = stop_opt s"
| "slider_event_opt s Visible = start_opt s"

text \<open>
  The \<^verbatim>\<open>load\<close> handler of both files starts the countdown timer once
  (\<^verbatim>\<open>setInterval(updateCountdown, 1000)\<close>) and never touches it again.
\<close>

definition on_load :: "timers \<Rightarrow> timers" where
  "on_load s = snd (setInterval Countdown s)"

definition no_timers :: timers where
  "no_timers = \<lparr>live = [], nextId = 1, slideTimer = None\<rparr>"

definition boot :: timers where
  "boot = on_load (initHeroImageSlider no_timers)"

definition boot_opt :: timers where
  "boot_opt = on_load (initHeroImageSlider_opt no_timers)"

text \<open>
  The invariant of the rewrite's slider: handles are positive and below the next handle,
  the live slide timers are exactly the one \<^verbatim>\<open>slideTimer\<close> holds, and there is at
  most one countdown timer.
\<close>

definition timers_ok :: "timers \<Rightarrow> bool" where
  "timers_ok s \<longleftrightarrow>
     0 < nextId s
     \<and> list_all (\<lambda>x. fst x < nextId s) (live s)
     \<and> live_of HeroSlide s = (case slideTimer s of None \<Rightarrow> [] | Some t \<Rightarrow> [t])
     \<and> slideTimer s \<noteq> Some 0
     \<and> length (live_of Countdown s) \<le> 1"

section \<open>Optional elements: back-to-top button, accordion, animated elements\<close>

text \<open>
  The top level of \<^verbatim>\<open>script.js\<close> after the \<^verbatim>\<open>DOMContentLoaded\<close> registration (lines
  524-742) runs statement by statement; an exception ends the evaluation of the script,
  and what comes after it is never set up. Line 541 registers the scroll listener, line
  542 calls \<^verbatim>\<open>backToTopButton.addEventListener\<close> on the result of
  \<^verbatim>\<open>getElementById\<close>, which is \<^verbatim>\<open>null\<close> when the page has no such button.
\<close>

datatype wiring =
  ScrollToggle | BackToTopClick | CountdownLoad | PricingHover | BackToTopHeight
  | OutboundTracking

definition script_toplevel :: "page \<Rightarrow> js_error option \<times> wiring list" where
  "script_toplevel p =
     (case backToTopBtn p of
        None \<Rightarrow> (Some TypeError, [ScrollToggle])
      | Some _ \<Rightarrow> (None, [ScrollToggle, BackToTopClick, CountdownLoad, PricingHover,
                        BackToTopHeight, OutboundTracking]))"

text \<open>
  The rewrite is one function expression; its set-up steps test every element they use
  (\<^verbatim>\<open>if (backToTopBtn)\<close>, \<^verbatim>\<open>if (!accordion) return\<close>) or are wrapped in
  \<^verbatim>\<open>try\<close>, and \<^verbatim>\<open>toggleBackToTopButton\<close> is gone from it.
\<close>

definition script_toplevel_opt :: "page \<Rightarrow> js_error option \<times> wiring list" where
  "script_toplevel_opt p =
     (None, (case backToTopBtn p of None \<Rightarrow> [] | Some _ \<Rightarrow> [BackToTopClick])
            @ [CountdownLoad, PricingHover, BackToTopHeight, OutboundTracking])"

text \<open>
  An accordion item: whether it has a header and a panel, the header's
  \<^verbatim>\<open>aria-expanded\<close>, the panel's \<^verbatim>\<open>max-height\<close>, the item's class \<^verbatim>\<open>active\<close>, and the
  header's icon (\<open>Some True\<close> for \<^verbatim>\<open>fa-minus\<close>, \<open>Some False\<close> for \<^verbatim>\<open>fa-plus\<close>).
\<close>

record acc_item =
  has_header :: bool
  has_panel :: bool
  aria_expanded :: bool
  maxHeight :: "int option"
  item_active :: bool
  icon_minus :: "bool option"

definition closePanel :: "acc_item \<Rightarrow> acc_item" where
  "closePanel item =
     (if \<not> has_header item \<or> \<not> has_panel item then item
      else item\<lparr>aria_expanded := False, maxHeight := None, item_active := False,
                icon_minus := map_option (\<lambda>_. False) (icon_minus item)\<rparr>)"

text \<open>
  The document click listener of \<^verbatim>\<open>script.js\<close> (lines 444-451) stands after the
  \<^verbatim>\<open>if (accordion) { ... }\<close> block: it calls \<^verbatim>\<open>accordion.contains\<close> on a possibly
  \<^verbatim>\<open>null\<close> accordion, and \<^verbatim>\<open>closePanel\<close>, a \<^verbatim>\<open>const\<close> of that block, is out of scope
  where the listener calls it. The second argument says whether the click target lies
  inside the accordion.
\<close>

definition outside_click :: "acc_item list option \<Rightarrow> bool \<Rightarrow> js_error + acc_item list option"
  where
  "outside_click accordion target_inside =
     (case accordion of
        None \<Rightarrow> Inl TypeError
      | Some items \<Rightarrow>
          if \<not> target_inside
          then (case items of [] \<Rightarrow> Inr (Some items) | _ # _ \<Rightarrow> Inl ReferenceError)
          else Inr (Some items))"

text \<open>
  In the rewrite (lines 550-561) the listener is registered inside \<^verbatim>\<open>initAccordion\<close>,
  after \<^verbatim>\<open>if (!accordion) return\<close>: without an accordion there is no listener.
\<close>

definition outside_click_opt ::
  "acc_item list option \<Rightarrow> bool \<Rightarrow> js_error + acc_item list option" where
  "outside_click_opt accordion target_inside =
     (case accordion of
        None \<Rightarrow> Inr None
      | Some items \<Rightarrow>
          if \<not> target_inside then Inr (Some (map closePanel items)) else Inr (Some items))"

text \<open>
  The end of the \<^verbatim>\<open>DOMContentLoaded\<close> handler of \<^verbatim>\<open>script.js\<close> (lines 454-472) calls
  \<^verbatim>\<open>animateOnScrollObserver.observe\<close> for each of the \<open>n\<close> elements with \<^verbatim>\<open>data-aos\<close>;
  \<^verbatim>\<open>script.js\<close> declares no \<^verbatim>\<open>animateOnScrollObserver\<close>. The rewrite declares it first
  (lines 39-57) and returns early when there are no such elements.
\<close>

definition init_animated :: "nat \<Rightarrow> js_error + unit" where
  "init_animated n = (if n = 0 then Inr () else Inl ReferenceError)"

section \<open>Countdown\<close>

text \<open>
  JavaScript numbers as the countdown uses them: a timestamp in milliseconds, or
  \<^verbatim>\<open>NaN\<close> (the time of an invalid date). Timestamps of valid dates are integers of
  magnitude at most \<open>8.64 * 10^15\<close>, where the arithmetic below is exact.
\<close>

datatype jsnum = NaN | Num int

fun js_sub :: "jsnum \<Rightarrow> jsnum \<Rightarrow> jsnum" where
  "js_sub (Num a) (Num b) = Num (a - b)"
| "js_sub _ _ = NaN"

text \<open>\<^verbatim>\<open><\<close>: every comparison with \<^verbatim>\<open>NaN\<close> is false.\<close>

fun js_lt :: "jsnum \<Rightarrow> jsnum \<Rightarrow> bool" where
  "js_lt (Num a) (Num b) = (a < b)"
| "js_lt _ _ = False"

text \<open>
  \<^verbatim>\<open>Math.floor(a / b)\<close> and \<^verbatim>\<open>Math.floor((a % m) / b)\<close> for positive constants
  \<open>b\<close>, \<open>m\<close>; \<^verbatim>\<open>%\<close> takes the sign of the dividend.
\<close>

definition js_rem :: "int \<Rightarrow> int \<Rightarrow> int" where
  "js_rem a m = sgn a * (\<bar>a\<bar> mod \<bar>m\<bar>)"

fun floor_div :: "jsnum \<Rightarrow> int \<Rightarrow> jsnum" where
  "floor_div (Num a) b = Num (a div b)"
| "floor_div NaN b = NaN"

fun floor_rem_div :: "jsnum \<Rightarrow> int \<Rightarrow> int \<Rightarrow> jsnum" where
  "floor_rem_div (Num a) m b = Num (js_rem a m div b)"
| "floor_rem_div NaN m b = NaN"

text \<open>\<^verbatim>\<open>Number.prototype.toString\<close> and \<^verbatim>\<open>padStart(2, "0")\<close>.\<close>

definition digit :: "nat \<Rightarrow> char" where
  "digit n = ''0123456789'' ! n"

function show_nat :: "nat \<Rightarrow> string" where
  "show_nat n = (if n < 10 then [digit n] else show_nat (n div 10) @ [digit (n mod 10)])"
  by pat_completeness auto
termination
  by (relation "measure id") auto

declare show_nat.simps [simp del]

fun toString :: "jsnum \<Rightarrow> string" where
  "toString NaN = ''NaN''"
| "toString (Num n) = (if n < 0 then CHR ''-'' # show_nat (nat (- n)) else show_nat (nat n))"

definition padStart2 :: "string \<Rightarrow> string" where
  "padStart2 s = replicate (2 - length s) CHR ''0'' @ s"

definition numeric :: "string \<Rightarrow> bool" where
  "numeric s \<longleftrightarrow> s \<noteq> [] \<and> list_all (\<lambda>c. c \<in> set ''0123456789'') s"

text \<open>
  The part of the document the countdown touches. \<open>cta_timer\<close> is \<open>None\<close> when there is
  no \<^verbatim>\<open>.cta-timer\<close> element, else the value of its \<^verbatim>\<open>data-countdown-date\<close> attribute
  (\<open>None\<close> when the attribute is absent). The unit elements hold their \<^verbatim>\<open>innerHTML\<close>;
  \<open>countdown_pulse\<close> is the class \<^verbatim>\<open>animate-pulse\<close> of the \<^verbatim>\<open>.countdown\<close> element.
\<close>

record countdown_dom =
  cta_timer :: "string option option"
  el_days :: "string option"
  el_hours :: "string option"
  el_minutes :: "string option"
  el_seconds :: "string option"
  countdown_pulse :: "bool option"

definition fourDaysMs :: int where
  "fourDaysMs = 4 * 24 * 60 * 60 * 1000"

text \<open>
  The platform is a parameter: \<open>parse s\<close> is \<^verbatim>\<open>new Date(s).getTime()\<close> (\<open>None\<close> for an
  invalid date, whose time is \<^verbatim>\<open>NaN\<close>), \<open>toISOString t\<close> is
  \<^verbatim>\<open>new Date(t).toISOString()\<close>, \<open>now\<close> is \<^verbatim>\<open>Date.now()\<close>.
\<close>

definition getTime :: "(string \<Rightarrow> int option) \<Rightarrow> string \<Rightarrow> jsnum" where
  "getTime parse s = (case parse s of None \<Rightarrow> NaN | Some t \<Rightarrow> Num t)"

text \<open>
  \<^verbatim>\<open>updateCountdown\<close> of \<^verbatim>\<open>script.js\<close> (lines 475-521). The four unit elements and the
  \<^verbatim>\<open>.countdown\<close> element are dereferenced without a null check; when one of them is
  missing the result is the exception, and the writes made before it are not recorded.
\<close>

definition render_units ::
  "jsnum \<Rightarrow> countdown_dom \<Rightarrow> js_error + countdown_dom" where
  "render_units distance d =
     (let days = floor_div distance (1000 * 60 * 60 * 24);
          hours = floor_rem_div distance (1000 * 60 * 60 * 24) (1000 * 60 * 60);
          minutes = floor_rem_div distance (1000 * 60 * 60) (1000 * 60);
          seconds = floor_rem_div distance (1000 * 60) 1000
      in if el_days d = None \<or> el_hours d = None \<or> el_minutes d = None \<or> el_seconds d = None
         then Inl TypeError
         else
           (let d1 = d\<lparr>el_days := Some (padStart2 (toString days)),
                       el_hours := Some (padStart2 (toString hours)),
                       el_minutes := Some (padStart2 (toString minutes)),
                       el_seconds := Some (padStart2 (toString seconds))\<rparr>
            in if js_lt days (Num 1)
               then (case countdown_pulse d1 of
                       None \<Rightarrow> Inl TypeError
                     | Some _ \<Rightarrow> Inr (d1\<lparr>countdown_pulse := Some True\<rparr>))
               else Inr d1))"

definition updateCountdown ::
  "(string \<Rightarrow> int option) \<Rightarrow> (int \<Rightarrow> string) \<Rightarrow> int \<Rightarrow> countdown_dom
     \<Rightarrow> js_error + countdown_dom" where
  "updateCountdown parse toISOString now d =
     (case cta_timer d of
        None \<Rightarrow> Inr d
      | Some None \<Rightarrow> Inr d
      | Some (Some targetDateStr) \<Rightarrow>
          if targetDateStr = [] then Inr d
          else
            (let countDownDate = getTime parse targetDateStr;
                 distance = js_sub countDownDate (Num now)
             in if js_lt distance (Num 0)
                then Inr (d\<lparr>cta_timer := Some (Some (toISOString (now + fourDaysMs)))\<rparr>)
                else render_units distance d))"

text \<open>
  \<^verbatim>\<open>updateCountdown\<close> of the rewrite (lines 362-407): \<^verbatim>\<open>isNaN\<close> is tested first, and
  every element is written only when it exists.
\<close>

definition render_units_opt :: "jsnum \<Rightarrow> countdown_dom \<Rightarrow> countdown_dom" where
  "render_units_opt distance d =
     (let days = floor_div distance (1000 * 60 * 60 * 24);
          hours = floor_rem_div distance (1000 * 60 * 60 * 24) (1000 * 60 * 60);
          minutes = floor_rem_div distance (1000 * 60 * 60) (1000 * 60);
          seconds = floor_rem_div distance (1000 * 60) 1000;
          d1 = d\<lparr>el_days := map_option (\<lambda>_. padStart2 (toString days)) (el_days d),
                  el_hours := map_option (\<lambda>_. padStart2 (toString hours)) (el_hours d),
                  el_minutes := map_option (\<lambda>_. padStart2 (toString minutes)) (el_minutes d),
                  el_seconds := map_option (\<lambda>_. padStart2 (toString seconds)) (el_seconds d)\<rparr>
      in if js_lt days (Num 1)
         then d1\<lparr>countdown_pulse := map_option (\<lambda>_. True) (countdown_pulse d1)\<rparr>
         else d1)"

definition updateCountdown_opt ::
  "(string \<Rightarrow> int option) \<Rightarrow> (int \<Rightarrow> string) \<Rightarrow> int \<Rightarrow> countdown_dom
     \<Rightarrow> js_error + countdown_dom" where
  "updateCountdown_opt parse toISOString now d =
     (case cta_timer d of
        None \<Rightarrow> Inr d
      | Some None \<Rightarrow> Inr d
      | Some (Some targetDateStr) \<Rightarrow>
          if targetDateStr = [] then Inr d
          else
            (let countDownDate = getTime parse targetDateStr
             in if countDownDate = NaN \<or> js_lt countDownDate (Num now)
                then Inr (d\<lparr>cta_timer := Some (Some (toISOString (now + fourDaysMs)))\<rparr>)
                else Inr (render_units_opt (js_sub countDownDate (Num now)) d)))"

text \<open>A countdown block with all its elements, showing zeros.\<close>

definition countdown0 :: countdown_dom where
  "countdown0 = \<lparr>cta_timer = Some (Some ''not-a-date''),
                 el_days = Some ''00'', el_hours = Some ''00'', el_minutes = Some ''00'',
                 el_seconds = Some ''00'', countdown_pulse = Some False\<rparr>"

text \<open>
  \<open>unit_ok old new\<close>: a unit element was left alone, or it now shows digits only.
\<close>

definition unit_ok :: "string option \<Rightarrow> string option \<Rightarrow> bool" where
  "unit_ok old new \<longleftrightarrow> new = old \<or> (case new of None \<Rightarrow> False | Some u \<Rightarrow> numeric u)"

section \<open>Visibility observers\<close>

text \<open>
  The platform's \<^verbatim>\<open>IntersectionObserver\<close>, as far as the callbacks depend on it. An
  observer keeps a list of observation targets (elements are numbered);
  \<^verbatim>\<open>observe\<close> adds a target unless it is there already, \<^verbatim>\<open>unobserve\<close> removes it.
  A check cycle hands the callback a batch of entries; the platform builds entries only
  for the targets observed at that moment. \<open>isIntersecting\<close> is the platform's verdict
  that the target has crossed the configured threshold (0.1 for animated elements, 0.01
  with a root margin of 200px for lazy images).
\<close>

record entry =
  target :: nat
  isIntersecting :: bool

definition observe :: "nat \<Rightarrow> nat list \<Rightarrow> nat list" where
  "observe t targets = (if t \<in> set targets then targets else targets @ [t])"

definition unobserve :: "nat \<Rightarrow> nat list \<Rightarrow> nat list" where
  "unobserve t targets = removeAll t targets"

definition queued :: "nat list \<Rightarrow> entry list \<Rightarrow> entry list" where
  "queued targets batch = filter (\<lambda>e. target e \<in> set targets) batch"

subsection \<open>Animated elements\<close>

text \<open>
  \<open>aos_animate\<close>: the elements carrying the class \<^verbatim>\<open>aos-animate\<close>. \<open>aos_fired\<close> logs
  every run of the body of \<^verbatim>\<open>if (entry.isIntersecting)\<close>, in order.
\<close>

record aos_state =
  aos_observed :: "nat list"
  aos_animate :: "nat set"
  aos_fired :: "nat list"

text \<open>The callback of \<^verbatim>\<open>animateOnScrollObserver\<close> (rewrite, lines 42-54).\<close>

fun aos_callback :: "entry list \<Rightarrow> aos_state \<Rightarrow> aos_state" where
  "aos_callback [] s = s"
| "aos_callback (e # es) s =
     aos_callback es
       (if isIntersecting e
        then s\<lparr>aos_animate := insert (target e) (aos_animate s),
               aos_fired := aos_fired s @ [target e],
               aos_observed := unobserve (target e) (aos_observed s)\<rparr>
        else s)"

definition aos_cycle :: "aos_state \<Rightarrow> entry list \<Rightarrow> aos_state" where
  "aos_cycle s batch = aos_callback (queued (aos_observed s) batch) s"

text \<open>
  \<^verbatim>\<open>initAosFallback\<close> (rewrite, lines 585-593) when the observer exists and the AOS
  library does not: every element with \<^verbatim>\<open>data-aos\<close> is observed.
\<close>

definition initAosFallback :: "nat list \<Rightarrow> aos_state" where
  "initAosFallback animatedElements =
     \<lparr>aos_observed = foldl (\<lambda>ts el. observe el ts) [] animatedElements,
      aos_animate = {}, aos_fired = []\<rparr>"

subsection \<open>Lazy images\<close>

record img =
  src :: string
  data_src :: "string option"
  data_loaded :: "string option"
  has_handlers :: bool

record lazy_state =
  images :: "nat \<Rightarrow> img"
  lazy_observed :: "nat list"
  lazy_fired :: "nat list"

text \<open>
  The callback of \<^verbatim>\<open>initLazyLoading\<close> (\<^verbatim>\<open>script.js\<close> lines 17-45, rewrite lines 70-97).
  An image whose \<^verbatim>\<open>data-loaded\<close> is \<^verbatim>\<open>"true"\<close> is only unobserved. Otherwise the image
  is loaded: \<^verbatim>\<open>src\<close> becomes the non-empty \<^verbatim>\<open>data-src\<close> (\<^verbatim>\<open>script.js\<close> writes
  \<^verbatim>\<open>data-src || src\<close>, the rewrite assigns only a truthy \<^verbatim>\<open>data-src\<close>: the same value),
  the load and error handlers are installed, and the image is unobserved.
\<close>

definition load_image :: "img \<Rightarrow> img" where
  "load_image im =
     im\<lparr>src := (case data_src im of
                   None \<Rightarrow> src im
                 | Some d \<Rightarrow> if d = [] then src im else d),
        has_handlers := True\<rparr>"

fun lazy_callback :: "entry list \<Rightarrow> lazy_state \<Rightarrow> lazy_state" where
  "lazy_callback [] s = s"
| "lazy_callback (e # es) s =
     lazy_callback es
       (if isIntersecting e
        then (if data_loaded (images s (target e)) = Some ''true''
              then s\<lparr>lazy_observed := unobserve (target e) (lazy_observed s)\<rparr>
              else s\<lparr>images := (images s)(target e := load_image (images s (target e))),
                     lazy_fired := lazy_fired s @ [target e],
                     lazy_observed := unobserve (target e) (lazy_observed s)\<rparr>)
        else s)"

text \<open>The handlers installed by the callback: \<^verbatim>\<open>onload\<close> and \<^verbatim>\<open>onerror\<close>.\<close>

definition img_onload :: "img \<Rightarrow> img" where
  "img_onload im = im\<lparr>data_loaded := Some ''true'', data_src := None\<rparr>"

definition img_onerror :: "img \<Rightarrow> img" where
  "img_onerror im = im\<lparr>data_loaded := Some ''error''\<rparr>"

datatype obs_event = Cycle "entry list" | Loaded nat | Failed nat

fun lazy_step :: "lazy_state \<Rightarrow> obs_event \<Rightarrow> lazy_state" where
  "lazy_step s (Cycle batch) = lazy_callback (queued (lazy_observed s) batch) s"
| "lazy_step s (Loaded i) =
     (if has_handlers (images s i) then s\<lparr>images := (images s)(i := img_onload (images s i))\<rparr>
      else s)"
| "lazy_step s (Failed i) =
     (if has_handlers (images s i) then s\<lparr>images := (images s)(i := img_onerror (images s i))\<rparr>
      else s)"

text \<open>
  \<^verbatim>\<open>initLazyLoading\<close> after the callback is defined (\<^verbatim>\<open>script.js\<close> lines 51-59, rewrite
  lines 104-114) observes every lazy image. The attributes it prepares on the way
  (\<^verbatim>\<open>data-src\<close>, the placeholder \<^verbatim>\<open>src\<close>) are left open: \<open>imgs\<close> is any assignment
  of image states.
\<close>

definition initLazyLoading :: "(nat \<Rightarrow> img) \<Rightarrow> nat list \<Rightarrow> lazy_state" where
  "initLazyLoading imgs lazyImages =
     \<lparr>images = imgs,
      lazy_observed = foldl (\<lambda>ts el. observe el ts) [] lazyImages,
      lazy_fired = []\<rparr>"

subsection \<open>Runs of check cycles\<close>

text \<open>
  \<open>once t\<close>: the callback ran for the element \<open>t\<close> at most once, and if it ran,
  \<open>t\<close> is no longer observed. \<open>reports t batch\<close> counts the entries of a batch that
  report \<open>t\<close> as intersecting. \<open>batch_of\<close> is the batch an event carries (none for a
  load or error event).
\<close>

definition once :: "nat \<Rightarrow> nat list \<Rightarrow> nat list \<Rightarrow> bool" where
  "once t fired observed \<longleftrightarrow>
     count_list fired t \<le> 1 \<and> (t \<in> set fired \<longrightarrow> t \<notin> set observed)"

definition reports :: "nat \<Rightarrow> entry list \<Rightarrow> nat" where
  "reports t batch = length (filter (\<lambda>e. target e = t \<and> isIntersecting e) batch)"

fun batch_of :: "obs_event \<Rightarrow> entry list" where
  "batch_of (Cycle batch) = batch"
| "batch_of (Loaded i) = []"
| "batch_of (Failed i) = []"

text \<open>Example runs: three animated elements, two lazy images.\<close>

definition bs0 :: "entry list list" where
  "bs0 = [[\<lparr>target = 1, isIntersecting = False\<rparr>, \<lparr>target = 2, isIntersecting = True\<rparr>],
          [\<lparr>target = 1, isIntersecting = True\<rparr>, \<lparr>target = 2, isIntersecting = True\<rparr>]]"

definition evs0 :: "obs_event list" where
  "evs0 = [Cycle [\<lparr>target = 1, isIntersecting = True\<rparr>, \<lparr>target = 2, isIntersecting = False\<rparr>],
           Loaded 1,
           Cycle [\<lparr>target = 1, isIntersecting = True\<rparr>, \<lparr>target = 2, isIntersecting = True\<rparr>]]"

text \<open>
  A batch that carries three entries for one element: it entered, left and entered the
  viewport again before the callback ran.
\<close>

definition flicker :: "entry list" where
  "flicker = [\<lparr>target = 1, isIntersecting = True\<rparr>, \<lparr>target = 1, isIntersecting = False\<rparr>,
              \<lparr>target = 1, isIntersecting = True\<rparr>]"

definition imgs0 :: "nat \<Rightarrow> img" where
  "imgs0 = (\<lambda>i. \<lparr>src = ''placeholder'', data_src = Some ''photo.jpg'', data_loaded = None,
                   has_handlers = False\<rparr>)"

section \<open>Outbound link tagging\<close>

subsection \<open>The platform's URL objects\<close>









subsection \<open>The tagger\<close>










subsection \<open>Example links and an excerpt of the platform\<close>






section \<open>Properties of the header update\<close>

lemma currentScroll_opt: "js_or (pageYOffset p) (js_or (scrollY p) 0) = scrollY p"
  by (simp add: js_or_def pageYOffset_def)

lemma backToTopBtn_updateHeader:
  "backToTopBtn (updateHeader p) = map_option (\<lambda>_. scrollY p > 300) (backToTopBtn p)"
  by (simp add: updateHeader_def Let_def pageYOffset_def split: option.split)

lemma backToTopBtn_updateHeader_opt:
  "backToTopBtn (updateHeader_opt p) = map_option (\<lambda>_. scrollY p > 300) (backToTopBtn p)"
  by (simp add: updateHeader_opt_def Let_def currentScroll_opt split: option.split)

lemma toggleBackToTopButton_present:
  "toggleBackToTopButton (p\<lparr>backToTopBtn := Some b\<rparr>) =
     Inr (p\<lparr>backToTopBtn := Some (scrollY p > 300)\<rparr>)"
  by (simp add: toggleBackToTopButton_def pageYOffset_def)

text \<open>
  C7. After a scroll-update invocation the back-to-top button, when the page has one,
  carries the class \<^verbatim>\<open>show\<close> if and only if the sampled offset is strictly greater
  than 300. This holds for \<^verbatim>\<open>updateHeader\<close> in both files and for
  \<^verbatim>\<open>toggleBackToTopButton\<close>; at offset 300 the button is hidden, at 301 it is shown.
\<close>

theorem C7_back_to_top_threshold:
  "backToTopBtn (updateHeader (p\<lparr>backToTopBtn := Some b\<rparr>)) = Some (scrollY p > 300)
   \<and> backToTopBtn (updateHeader_opt (p\<lparr>backToTopBtn := Some b\<rparr>)) = Some (scrollY p > 300)
   \<and> toggleBackToTopButton (p\<lparr>backToTopBtn := Some b\<rparr>) =
        Inr (p\<lparr>backToTopBtn := Some (scrollY p > 300)\<rparr>)
   \<and> backToTopBtn (updateHeader (p\<lparr>backToTopBtn := Some b, scrollY := 300\<rparr>)) = Some False
   \<and> backToTopBtn (updateHeader (p\<lparr>backToTopBtn := Some b, scrollY := 301\<rparr>)) = Some True
   \<and> backToTopBtn (updateHeader_opt (p\<lparr>backToTopBtn := Some b, scrollY := 300\<rparr>)) = Some False
   \<and> backToTopBtn (updateHeader_opt (p\<lparr>backToTopBtn := Some b, scrollY := 301\<rparr>)) = Some True"
  by (simp add: backToTopBtn_updateHeader backToTopBtn_updateHeader_opt
      toggleBackToTopButton_present)

text \<open>
  C2, as the code has it. While the mobile menu carries the class \<^verbatim>\<open>active\<close>,
  \<^verbatim>\<open>updateHeader\<close> skips the hide/show block: the header's \<^verbatim>\<open>hide\<close> class is left
  as it was (never added, never removed), whatever the scroll position and direction.
\<close>

theorem C2_menu_open_keeps_hide:
  assumes "navMenu p = Some True"
  shows "header_hide (updateHeader p) = header_hide p
       \<and> header_hide (updateHeader_opt p) = header_hide p"
proof
  show "header_hide (updateHeader p) = header_hide p"
    using assms by (simp add: updateHeader_def Let_def split: option.split)
next
  show "header_hide (updateHeader_opt p) = header_hide p"
    using assms by (simp add: updateHeader_opt_def Let_def split: option.split)
qed

theorem C2_menu_open_keeps_hide_witness:
  "navMenu (page0\<lparr>navMenu := Some True, scrollY := 900\<rparr>) = Some True
   \<and> header_hide (updateHeader (page0\<lparr>navMenu := Some True, scrollY := 900\<rparr>)) = False
   \<and> header_hide (updateHeader_opt (page0\<lparr>navMenu := Some True, scrollY := 900\<rparr>)) = False"
  using C2_menu_open_keeps_hide [of "page0\<lparr>navMenu := Some True, scrollY := 900\<rparr>"]
  by (simp add: page0_def)

text \<open>
  The claim as the spec words it fails: the user scrolls down to 500 (the header hides),
  opens the mobile menu, and scrolls on to 600. After that scroll-update invocation the
  menu is open and the header is still hidden, in both files.
\<close>

theorem C2_hidden_while_menu_open:
  "navMenu (foldl step (updateHeader page0)
      [Scroll 500, Frame, MenuClick, Scroll 600, Frame]) = Some True
   \<and> header_hide (foldl step (updateHeader page0)
      [Scroll 500, Frame, MenuClick, Scroll 600, Frame]) = True
   \<and> last (calls (foldl step (updateHeader page0)
      [Scroll 500, Frame, MenuClick, Scroll 600, Frame])) = UpdateHeader
   \<and> navMenu (foldl step_opt (updateHeader_opt page0)
      [Scroll 500, Frame, MenuClick, Scroll 600, Frame]) = Some True
   \<and> header_hide (foldl step_opt (updateHeader_opt page0)
      [Scroll 500, Frame, MenuClick, Scroll 600, Frame]) = True"
  by code_simp

subsection \<open>Frame batching\<close>

lemma onScroll_idle:
  "\<not> ticking p \<Longrightarrow>
     onScroll p = p\<lparr>rafQueue := rafQueue p @ [UpdateHeader], ticking := True\<rparr>"
  by (simp add: onScroll_def)

lemma onScroll_pending: "ticking p \<Longrightarrow> onScroll p = p"
  by (simp add: onScroll_def)

lemma calls_updateHeader [simp]: "calls (updateHeader p) = calls p"
  by (simp add: updateHeader_def Let_def split: option.split)

lemma calls_updateHeader_opt [simp]: "calls (updateHeader_opt p) = calls p"
  by (simp add: updateHeader_opt_def Let_def split: option.split)

lemma calls_setActive_opt [simp]: "calls (setActive_opt p) = calls p"
  by (simp add: setActive_opt_def)

lemma calls_setActiveLink [simp]: "calls (setActiveLink p) = calls p"
  by (simp add: setActiveLink_def)

lemma calls_invoked [simp]: "calls (invoked r p) = calls p @ [r]"
  by (simp add: invoked_def)

lemma calls_run_callbacks_opt:
  "calls (foldl run_callback_opt q rs) =
     calls q @ filter (\<lambda>r. r \<noteq> ToggleBackToTopButton) rs"
proof (induction rs arbitrary: q)
  case Nil
  show ?case by simp
next
  case (Cons r rs)
  show ?case by (cases r) (simp_all add: Cons.IH)
qed

lemma calls_frame_opt:
  "calls (frame_opt p) = calls p @ filter (\<lambda>r. r \<noteq> ToggleBackToTopButton) (rafQueue p)"
  by (simp add: frame_opt_def calls_run_callbacks_opt)

lemma coalesced_scroll_event_opt:
  "coalesced p \<Longrightarrow> coalesced (scroll_event_opt (p\<lparr>scrollY := v\<rparr>))"
  by (auto simp: coalesced_def scroll_event_opt_def onScroll_def onScroll_nav_opt_def Let_def)

lemma calls_scroll_event_opt [simp]:
  "calls (scroll_event_opt p) = calls p"
  by (simp add: scroll_event_opt_def onScroll_def onScroll_nav_opt_def Let_def)

lemma scrolls_opt_inv:
  "coalesced p \<Longrightarrow>
     coalesced (scrolls_opt p vs) \<and> calls (scrolls_opt p vs) = calls p"
proof (induction vs arbitrary: p)
  case Nil
  then show ?case by (simp add: scrolls_opt_def)
next
  case (Cons v vs)
  have c: "coalesced (scroll_event_opt (p\<lparr>scrollY := v\<rparr>))"
    using Cons.prems by (rule coalesced_scroll_event_opt)
  have "scrolls_opt p (v # vs) = scrolls_opt (scroll_event_opt (p\<lparr>scrollY := v\<rparr>)) vs"
    by (simp add: scrolls_opt_def)
  with Cons.IH [OF c] show ?case by simp
qed

lemma count_list_distinct: "distinct xs \<Longrightarrow> count_list xs r \<le> 1"
  by (induction xs) (auto simp: count_list_0_iff)

text \<open>
  In the rewrite, any number of scroll events followed by one animation frame invokes
  each scroll-driven routine at most once in that frame.
\<close>

lemma frame_opt_at_most_once:
  assumes "coalesced p"
  shows "count_list (calls (frame_opt (scrolls_opt p vs))) r \<le> count_list (calls p) r + 1"
proof -
  let ?q = "scrolls_opt p vs"
  from scrolls_opt_inv [OF assms, of vs]
  have d: "distinct (rafQueue ?q)" and c: "calls ?q = calls p"
    by (simp_all add: coalesced_def)
  have "distinct (filter (\<lambda>r. r \<noteq> ToggleBackToTopButton) (rafQueue ?q))"
    using d by simp
  then have "count_list (filter (\<lambda>r. r \<noteq> ToggleBackToTopButton) (rafQueue ?q)) r \<le> 1"
    by (rule count_list_distinct)
  then show ?thesis
    by (simp add: calls_frame_opt c)
qed

text \<open>
  In \<^verbatim>\<open>script.js\<close> only \<^verbatim>\<open>updateHeader\<close> is batched: \<^verbatim>\<open>setActiveLink\<close> and
  \<^verbatim>\<open>toggleBackToTopButton\<close> are scroll listeners themselves and run once per event.
\<close>

lemma calls_scroll_event:
  "calls (scroll_event p) = calls p @ [ToggleBackToTopButton, SetActiveLink]"
  by (simp add: scroll_event_def Let_def onScroll_def toggleBackToTopButton_def
      split: option.split sum.split)

lemma calls_scrolls:
  "count_list (calls (scrolls p vs)) SetActiveLink =
     count_list (calls p) SetActiveLink + length vs"
proof (induction vs arbitrary: p)
  case Nil
  show ?case by (simp add: scrolls_def)
next
  case (Cons v vs)
  have "scrolls p (v # vs) = scrolls (scroll_event (p\<lparr>scrollY := v\<rparr>)) vs"
    by (simp add: scrolls_def)
  then show ?case
    by (simp add: Cons.IH calls_scroll_event)
qed

text \<open>
  C1 at the failing input: two scroll events inside one frame of \<^verbatim>\<open>script.js\<close>, on a
  page with two sections and two nav links. The header update runs once, in the frame;
  the active-link routine and the second back-to-top routine have already run twice,
  once per event. The rewrite runs each routine once, in the frame.
\<close>

theorem C1_script_two_scrolls_one_frame:
  "calls (foldl step (updateHeader page_flat) [Scroll 10, Scroll 20, Frame]) =
     [ToggleBackToTopButton, SetActiveLink, ToggleBackToTopButton, SetActiveLink,
      UpdateHeader]
   \<and> count_list (calls (foldl step (updateHeader page_flat) [Scroll 10, Scroll 20, Frame]))
        SetActiveLink = 2
   \<and> count_list (calls (foldl step (updateHeader page_flat) [Scroll 10, Scroll 20, Frame]))
        ToggleBackToTopButton = 2
   \<and> calls (foldl step_opt (updateHeader_opt page_flat) [Scroll 10, Scroll 20, Frame]) =
     [UpdateHeader, SetActiveLink]"
  by code_simp

section \<open>Properties of the active navigation link\<close>

lemma href_toggle_links [simp]: "map href (toggle_links i ls) = map href ls"
  by (simp add: toggle_links_def)

lemma toggle_links_twice: "toggle_links j (toggle_links i ls) = toggle_links j ls"
  by (simp add: toggle_links_def)

text \<open>The loop over the sections leaves the links as the last matching section set them.\<close>

lemma each_section_last:
  "each_section pos ss ls =
     (if filter (in_view pos) ss = [] then ls
      else toggle_links (sec_id (last (filter (in_view pos) ss))) ls)"
proof (induction ss arbitrary: ls)
  case Nil
  show ?case by simp
next
  case (Cons s ss)
  show ?case
  proof (cases "in_view pos s")
    case True
    then show ?thesis
      by (simp add: Cons.IH toggle_links_twice)
  next
    case False
    then show ?thesis
      by (simp add: Cons.IH)
  qed
qed

text \<open>
  C8, as the code has it. A section is matched exactly when \<open>v + 100\<close> lies in
  \<open>[offsetTop, offsetTop + offsetHeight)\<close>. When no section is matched the links keep
  their state. When sections are matched, exactly the links whose \<^verbatim>\<open>href\<close> is
  \<^verbatim>\<open>#\<close> followed by the identifier of the last matched section (in document order) are
  active; with a single matched section that is the matched section. Both files agree.
\<close>

theorem C8_active_link_last_match:
  "(in_view (scrollY p + 100) s \<longleftrightarrow>
      offsetTop s \<le> scrollY p + 100 \<and> scrollY p + 100 < offsetTop s + offsetHeight s)
   \<and> (filter (in_view (scrollY p + 100)) (sections p) = [] \<longrightarrow>
        navLinks (setActiveLink p) = navLinks p)
   \<and> (filter (in_view (scrollY p + 100)) (sections p) \<noteq> [] \<longrightarrow>
        navLinks (setActiveLink p) =
          map (\<lambda>l. l\<lparr>link_active :=
                 (href l = Some (CHR ''#'' #
                    sec_id (last (filter (in_view (scrollY p + 100)) (sections p)))))\<rparr>)
              (navLinks p))
   \<and> navLinks (setActive_opt p) = navLinks (setActiveLink p)"
proof (intro conjI impI)
  show "in_view (scrollY p + 100) s \<longleftrightarrow>
      offsetTop s \<le> scrollY p + 100 \<and> scrollY p + 100 < offsetTop s + offsetHeight s"
    by (simp add: in_view_def)
next
  assume "filter (in_view (scrollY p + 100)) (sections p) = []"
  then show "navLinks (setActiveLink p) = navLinks p"
    by (simp add: setActiveLink_def each_section_last)
next
  assume "filter (in_view (scrollY p + 100)) (sections p) \<noteq> []"
  then show "navLinks (setActiveLink p) =
          map (\<lambda>l. l\<lparr>link_active :=
                 (href l = Some (CHR ''#'' #
                    sec_id (last (filter (in_view (scrollY p + 100)) (sections p)))))\<rparr>)
              (navLinks p)"
    by (simp add: setActiveLink_def each_section_last toggle_links_def)
next
  show "navLinks (setActive_opt p) = navLinks (setActiveLink p)"
    by (simp add: setActive_opt_def setActiveLink_def)
qed

theorem C8_active_link_last_match_witness:
  "filter (in_view (scrollY (page_flat\<lparr>scrollY := 550\<rparr>) + 100))
       (sections (page_flat\<lparr>scrollY := 550\<rparr>)) \<noteq> []
   \<and> map link_active (navLinks (setActiveLink (page_flat\<lparr>scrollY := 550\<rparr>))) = [False, True]
   \<and> filter (in_view (scrollY (page_flat\<lparr>scrollY := 2000\<rparr>) + 100))
       (sections (page_flat\<lparr>scrollY := 2000\<rparr>)) = []
   \<and> navLinks (setActiveLink (page_flat\<lparr>scrollY := 2000\<rparr>)) = navLinks page_flat"
  using C8_active_link_last_match [of "page_flat\<lparr>scrollY := 550\<rparr>"]
    C8_active_link_last_match [of "page_flat\<lparr>scrollY := 2000\<rparr>"]
  by (simp add: page_flat_def page0_def in_view_def)

text \<open>
  The claim as the spec words it fails on the nested page: section \<open>a\<close> contains
  \<open>v + 100 = 150\<close>, yet the link to \<open>#a\<close> is not active afterwards, because the later
  section \<open>b\<close> contains 150 too and toggled the links last.
\<close>

theorem C8_nested_sections_counterexample:
  "in_view (scrollY page_nested + 100) (hd (sections page_nested))
   \<and> sec_id (hd (sections page_nested)) = ''a''
   \<and> map href (navLinks (setActiveLink page_nested)) = [Some ''#a'', Some ''#b'']
   \<and> map link_active (navLinks (setActiveLink page_nested)) = [False, True]
   \<and> map link_active (navLinks (setActive_opt page_nested)) = [False, True]"
  by (simp add: page_nested_def page0_def in_view_def setActiveLink_def setActive_opt_def
      toggle_links_def)

section \<open>Properties of the interval timers\<close>

lemma live_of_clear:
  "live_of b (clearInterval (Some t) s) = filter (\<lambda>i. i \<noteq> t) (live_of b s)"
  by (simp add: live_of_def clearInterval_def filter_map comp_def conj_commute)

lemma nextId_clear [simp]: "nextId (clearInterval h s) = nextId s"
  by (simp add: clearInterval_def split: option.split)

lemma slideTimer_clear [simp]: "slideTimer (clearInterval h s) = slideTimer s"
  by (simp add: clearInterval_def split: option.split)

lemma bound_clear:
  "list_all (\<lambda>x. fst x < n) (live s) \<Longrightarrow> list_all (\<lambda>x. fst x < n) (live (clearInterval h s))"
  by (simp add: clearInterval_def list_all_iff split: option.split)

lemma live_of_slideTimer_update [simp]: "live_of b (s\<lparr>slideTimer := h\<rparr>) = live_of b s"
  by (simp add: live_of_def)

lemma live_of_set:
  "live_of b (snd (setInterval b' s)) =
     (if b = b' then live_of b s @ [nextId s] else live_of b s)"
  by (simp add: live_of_def setInterval_def)

lemma bound_set:
  "list_all (\<lambda>x. fst x < nextId s) (live s) \<Longrightarrow>
   list_all (\<lambda>x. fst x < nextId (snd (setInterval b s))) (live (snd (setInterval b s)))"
  by (auto simp: setInterval_def list_all_iff)

text \<open>\<^verbatim>\<open>stop\<close> and \<^verbatim>\<open>start\<close> of the rewrite keep the invariant.\<close>

lemma timers_ok_stop_opt:
  assumes "timers_ok s"
  shows "timers_ok (stop_opt s)"
proof (cases "slideTimer s")
  case None
  then show ?thesis using assms by (simp add: stop_opt_def truthy_def)
next
  case (Some t)
  with assms have t: "t \<noteq> 0" and h: "live_of HeroSlide s = [t]"
    and c: "length (live_of Countdown s) \<le> 1"
    and n: "0 < nextId s" and b: "list_all (\<lambda>x. fst x < nextId s) (live s)"
    by (auto simp: timers_ok_def)
  have eq: "stop_opt s = (clearInterval (Some t) s)\<lparr>slideTimer := None\<rparr>"
    using Some t by (simp add: stop_opt_def truthy_def)
  have "length (filter (\<lambda>i. i \<noteq> t) (live_of Countdown s)) \<le> 1"
    using c length_filter_le [of "\<lambda>i. i \<noteq> t" "live_of Countdown s"] by linarith
  then show ?thesis
    unfolding eq timers_ok_def using h n bound_clear [OF b, of "Some t"]
    by (simp add: live_of_clear)
qed

lemma start_opt_eq:
  "start_opt s =
     (let s1 = (if truthy (slideTimer s) then clearInterval (slideTimer s) s else s)
      in (snd (setInterval HeroSlide s1))\<lparr>slideTimer := Some (nextId s1)\<rparr>)"
  by (simp add: start_opt_def Let_def setInterval_def)

lemma nextId_set [simp]: "nextId (snd (setInterval b s)) = Suc (nextId s)"
  by (simp add: setInterval_def)

lemma timers_ok_start_opt:
  assumes "timers_ok s"
  shows "timers_ok (start_opt s)"
proof -
  define s1 where "s1 = (if truthy (slideTimer s) then clearInterval (slideTimer s) s else s)"
  from assms have n: "0 < nextId s" and b: "list_all (\<lambda>x. fst x < nextId s) (live s)"
    and c: "length (live_of Countdown s) \<le> 1" and z: "slideTimer s \<noteq> Some 0"
    and h: "live_of HeroSlide s = (case slideTimer s of None \<Rightarrow> [] | Some t \<Rightarrow> [t])"
    by (auto simp: timers_ok_def)
  have n1: "nextId s1 = nextId s" by (simp add: s1_def)
  have b1: "list_all (\<lambda>x. fst x < nextId s1) (live s1)"
    unfolding n1 using b by (simp add: s1_def bound_clear)
  have h1: "live_of HeroSlide s1 = []"
  proof (cases "slideTimer s")
    case None
    then show ?thesis using h by (simp add: s1_def truthy_def)
  next
    case (Some t)
    then have "t \<noteq> 0" using z by auto
    then show ?thesis using Some h by (simp add: s1_def truthy_def live_of_clear)
  qed
  have c1: "length (live_of Countdown s1) \<le> 1"
  proof (cases "slideTimer s")
    case None
    then show ?thesis using c by (simp add: s1_def truthy_def)
  next
    case (Some t)
    have "length (filter (\<lambda>i. i \<noteq> t) (live_of Countdown s)) \<le> 1"
      using c length_filter_le [of "\<lambda>i. i \<noteq> t" "live_of Countdown s"] by linarith
    then show ?thesis using Some c by (simp add: s1_def live_of_clear)
  qed
  have eq: "start_opt s = (snd (setInterval HeroSlide s1))\<lparr>slideTimer := Some (nextId s1)\<rparr>"
    by (simp add: start_opt_eq s1_def Let_def)
  show ?thesis
    unfolding eq timers_ok_def using n n1 bound_set [OF b1, of HeroSlide] h1 c1
    by (simp add: live_of_set)
qed

lemma timers_ok_event_opt: "timers_ok s \<Longrightarrow> timers_ok (slider_event_opt s e)"
  by (cases e) (simp_all add: timers_ok_stop_opt timers_ok_start_opt)

lemma timers_ok_run_opt: "timers_ok s \<Longrightarrow> timers_ok (foldl slider_event_opt s es)"
  by (induction es arbitrary: s) (simp_all add: timers_ok_event_opt)

lemma timers_ok_boot_opt: "timers_ok boot_opt"
  by (simp add: timers_ok_def boot_opt_def on_load_def initHeroImageSlider_opt_def
      start_opt_def truthy_def no_timers_def setInterval_def live_of_def Let_def)

text \<open>
  In the rewrite at most one timer is live per timed behaviour, after every sequence of
  slider and visibility events.
\<close>

lemma at_most_one_live_timer_opt:
  "length (live_of b (foldl slider_event_opt boot_opt es)) \<le> 1"
proof -
  have "timers_ok (foldl slider_event_opt boot_opt es)"
    using timers_ok_boot_opt by (rule timers_ok_run_opt)
  then show ?thesis
    by (cases b) (auto simp: timers_ok_def split: option.splits)
qed

text \<open>
  C6 at the failing input, in \<^verbatim>\<open>script.js\<close>: the pointer enters the slider, the tab is
  hidden and shown again (a timer starts while the pointer still hovers), the pointer
  leaves (a second timer starts and the first is never cleared). Two slide timers are
  live; the rewrite has one.
\<close>

theorem C6_script_two_live_slide_timers:
  "live_of HeroSlide (foldl slider_event boot [MouseEnter, Hidden, Visible, MouseLeave]) = [3, 4]
   \<and> live_of HeroSlide (foldl slider_event_opt boot_opt [MouseEnter, Hidden, Visible, MouseLeave])
       = [4]"
  by (simp add: boot_def boot_opt_def on_load_def initHeroImageSlider_def
      initHeroImageSlider_opt_def start_slide_def start_opt_def stop_opt_def truthy_def
      no_timers_def setInterval_def clearInterval_def live_of_def Let_def)

section \<open>Properties of the visibility observers\<close>

lemma set_observe_all: "set (foldl (\<lambda>ts el. observe el ts) ts0 els) = set ts0 \<union> set els"
  by (induction els arbitrary: ts0) (auto simp: observe_def)

text \<open>What one callback run logs and unobserves.\<close>

lemma aos_callback_fired:
  "aos_fired (aos_callback es s) = aos_fired s @ map target (filter isIntersecting es)"
  by (induction es arbitrary: s) simp_all

lemma aos_callback_observed:
  "set (aos_observed (aos_callback es s)) =
     set (aos_observed s) - target ` set (filter isIntersecting es)"
  by (induction es arbitrary: s) (auto simp: unobserve_def)

lemma aos_run_fired_reported:
  assumes "t \<in> set (aos_fired (foldl aos_cycle s bs))"
  shows "t \<in> set (aos_fired s) \<or>
         (t \<in> set (aos_observed s) \<and> (\<exists>b\<in>set bs. \<lparr>target = t, isIntersecting = True\<rparr> \<in> set b))"
  using assms
proof (induction bs arbitrary: s)
  case Nil
  then show ?case by simp
next
  case (Cons b bs)
  let ?s1 = "aos_cycle s b"
  from Cons.IH [of ?s1] Cons.prems
  consider "t \<in> set (aos_fired ?s1)"
    | "t \<in> set (aos_observed ?s1)" "\<exists>b\<in>set bs. \<lparr>target = t, isIntersecting = True\<rparr> \<in> set b"
    by auto
  then show ?case
  proof cases
    case 1
    then consider "t \<in> set (aos_fired s)"
      | e where "e \<in> set b" "isIntersecting e" "target e = t" "t \<in> set (aos_observed s)"
      by (auto simp: aos_cycle_def aos_callback_fired queued_def)
    then show ?thesis
    proof cases
      case 1
      then show ?thesis by simp
    next
      case 2
      have "isIntersecting e \<Longrightarrow> target e = t \<Longrightarrow> e = \<lparr>target = t, isIntersecting = True\<rparr>"
        by (cases e) simp
      from this [OF 2(2,3)] 2(1) have "\<lparr>target = t, isIntersecting = True\<rparr> \<in> set b"
        by simp
      with 2(4) show ?thesis by simp
    qed
  next
    case 2
    then have "t \<in> set (aos_observed s)"
      by (simp add: aos_cycle_def aos_callback_observed)
    with 2 show ?thesis by auto
  qed
qed

lemma lazy_callback_fired:
  "(\<And>i. data_loaded (images s i) = dl i) \<Longrightarrow>
   lazy_fired (lazy_callback es s) =
     lazy_fired s @ map target (filter (\<lambda>e. isIntersecting e \<and> dl (target e) \<noteq> Some ''true'') es)"
proof (induction es arbitrary: s)
  case Nil
  show ?case by simp
next
  case (Cons e es)
  show ?case
  proof (cases "isIntersecting e \<and> dl (target e) \<noteq> Some ''true''")
    case True
    let ?s1 = "s\<lparr>images := (images s)(target e := load_image (images s (target e))),
                 lazy_fired := lazy_fired s @ [target e],
                 lazy_observed := unobserve (target e) (lazy_observed s)\<rparr>"
    have "\<And>i. data_loaded (images ?s1 i) = dl i"
      by (simp add: Cons.prems load_image_def)
    from Cons.IH [OF this] True show ?thesis
      by (simp add: Cons.prems)
  next
    case False
    then show ?thesis
    proof (cases "isIntersecting e")
      case True
      let ?s1 = "s\<lparr>lazy_observed := unobserve (target e) (lazy_observed s)\<rparr>"
      have "\<And>i. data_loaded (images ?s1 i) = dl i"
        by (simp add: Cons.prems)
      from Cons.IH [OF this] True False show ?thesis
        by (simp add: Cons.prems)
    next
      case False
      with Cons.IH [OF Cons.prems] show ?thesis by simp
    qed
  qed
qed

lemma lazy_callback_observed:
  "set (lazy_observed (lazy_callback es s)) =
     set (lazy_observed s) - target ` set (filter isIntersecting es)"
  by (induction es arbitrary: s) (auto simp: unobserve_def)

lemma lazy_step_fired_reported:
  assumes "t \<in> set (lazy_fired (lazy_step s ev))"
  shows "t \<in> set (lazy_fired s) \<or>
         (t \<in> set (lazy_observed s) \<and> \<lparr>target = t, isIntersecting = True\<rparr> \<in> set (batch_of ev))"
proof (cases ev)
  case (Cycle batch)
  have "lazy_fired (lazy_step s ev) = lazy_fired s @ map target (filter (\<lambda>e. isIntersecting e \<and>
          data_loaded (images s (target e)) \<noteq> Some ''true'') (queued (lazy_observed s) batch))"
    using Cycle lazy_callback_fired [of s "\<lambda>i. data_loaded (images s i)"] by simp
  with assms consider "t \<in> set (lazy_fired s)"
    | e where "e \<in> set batch" "isIntersecting e" "target e = t" "t \<in> set (lazy_observed s)"
    by (auto simp: queued_def)
  then show ?thesis
  proof cases
    case 1
    then show ?thesis by simp
  next
    case 2
    have "isIntersecting e \<Longrightarrow> target e = t \<Longrightarrow> e = \<lparr>target = t, isIntersecting = True\<rparr>"
      by (cases e) simp
    from this [OF 2(2,3)] 2(1) have "\<lparr>target = t, isIntersecting = True\<rparr> \<in> set batch"
      by simp
    with 2(4) Cycle show ?thesis by simp
  qed
next
  case (Loaded i)
  with assms show ?thesis by (simp split: if_splits)
next
  case (Failed i)
  with assms show ?thesis by (simp split: if_splits)
qed

lemma lazy_step_observed_subset:
  "set (lazy_observed (lazy_step s ev)) \<subseteq> set (lazy_observed s)"
  by (cases ev) (auto simp: lazy_callback_observed)

lemma lazy_run_fired_reported:
  assumes "t \<in> set (lazy_fired (foldl lazy_step s evs))"
  shows "t \<in> set (lazy_fired s) \<or>
         (t \<in> set (lazy_observed s) \<and>
          (\<exists>ev\<in>set evs. \<lparr>target = t, isIntersecting = True\<rparr> \<in> set (batch_of ev)))"
  using assms
proof (induction evs arbitrary: s)
  case Nil
  then show ?case by simp
next
  case (Cons ev evs)
  let ?s1 = "lazy_step s ev"
  from Cons.IH [of ?s1] Cons.prems
  consider "t \<in> set (lazy_fired ?s1)"
    | "t \<in> set (lazy_observed ?s1)"
      "\<exists>ev\<in>set evs. \<lparr>target = t, isIntersecting = True\<rparr> \<in> set (batch_of ev)"
    by auto
  then show ?case
  proof cases
    case 1
    from lazy_step_fired_reported [OF this] show ?thesis by auto
  next
    case 2
    with lazy_step_observed_subset [of s ev] show ?thesis by auto
  qed
qed

subsection \<open>At most once\<close>

lemma count_list_map_target:
  "count_list (map target es) t = length (filter (\<lambda>e. target e = t) es)"
  by (induction es) simp_all

lemma length_filter_mono:
  "(\<And>x. x \<in> set xs \<Longrightarrow> P x \<Longrightarrow> Q x) \<Longrightarrow> length (filter P xs) \<le> length (filter Q xs)"
  by (induction xs) auto

lemma queued_reports:
  assumes "\<And>e. P e \<Longrightarrow> isIntersecting e"
  shows "count_list (map target (filter P (queued targets batch))) t \<le> reports t batch"
proof -
  have "count_list (map target (filter P (queued targets batch))) t =
          length (filter (\<lambda>e. target e = t \<and> P e \<and> target e \<in> set targets) batch)"
    by (simp add: count_list_map_target queued_def conj_commute conj_left_commute)
  also have "\<dots> \<le> length (filter (\<lambda>e. target e = t \<and> isIntersecting e) batch)"
    by (rule length_filter_mono) (simp add: assms)
  finally show ?thesis by (simp add: reports_def)
qed

text \<open>
  One callback run keeps \<open>once t\<close> when its batch reports \<open>t\<close> at most once: \<open>new\<close>
  are the elements the run fires for, \<open>gone\<close> the elements it unobserves.
\<close>

lemma once_step:
  assumes "once t fired observed" and "set new \<subseteq> set gone" and "set gone \<subseteq> set observed"
    and "set observed' = set observed - set gone" and "count_list new t \<le> 1"
  shows "once t (fired @ new) observed'"
proof (cases "t \<in> set fired")
  case True
  then have "t \<notin> set observed" using assms(1) by (simp add: once_def)
  then have "t \<notin> set new" using assms(2,3) by auto
  then have "count_list new t = 0" by (simp add: count_list_0_iff)
  then show ?thesis
    using assms(1,4) True \<open>t \<notin> set observed\<close> by (simp add: once_def)
next
  case False
  then have "count_list fired t = 0" by (simp add: count_list_0_iff)
  then show ?thesis
    using assms(2,4,5) False by (auto simp: once_def)
qed

lemma aos_cycle_once:
  assumes "once t (aos_fired s) (aos_observed s)" and "reports t batch \<le> 1"
  shows "once t (aos_fired (aos_cycle s batch)) (aos_observed (aos_cycle s batch))"
proof -
  let ?new = "map target (filter isIntersecting (queued (aos_observed s) batch))"
  have c: "count_list ?new t \<le> 1"
    using queued_reports [of isIntersecting "aos_observed s" batch t] assms(2) by simp
  have sub: "set ?new \<subseteq> set (aos_observed s)"
    by (auto simp: queued_def)
  have obs: "set (aos_observed (aos_cycle s batch)) = set (aos_observed s) - set ?new"
    by (simp add: aos_cycle_def aos_callback_observed)
  show ?thesis
    using once_step [OF assms(1) subset_refl sub obs c]
    by (simp add: aos_cycle_def aos_callback_fired)
qed

lemma aos_run_once:
  assumes "once t (aos_fired s) (aos_observed s)" and "\<forall>b\<in>set bs. reports t b \<le> 1"
  shows "once t (aos_fired (foldl aos_cycle s bs)) (aos_observed (foldl aos_cycle s bs))"
  using assms
proof (induction bs arbitrary: s)
  case Nil
  then show ?case by simp
next
  case (Cons b bs)
  have "once t (aos_fired (aos_cycle s b)) (aos_observed (aos_cycle s b))"
    using Cons.prems by (simp add: aos_cycle_once)
  then show ?case using Cons.IH Cons.prems by simp
qed

lemma lazy_step_once:
  assumes "once t (lazy_fired s) (lazy_observed s)" and "reports t (batch_of ev) \<le> 1"
  shows "once t (lazy_fired (lazy_step s ev)) (lazy_observed (lazy_step s ev))"
proof (cases ev)
  case (Cycle batch)
  let ?es = "queued (lazy_observed s) batch"
  let ?P = "\<lambda>e. isIntersecting e \<and> data_loaded (images s (target e)) \<noteq> Some ''true''"
  let ?new = "map target (filter ?P ?es)"
  let ?gone = "map target (filter isIntersecting ?es)"
  have f: "lazy_fired (lazy_step s ev) = lazy_fired s @ ?new"
    using Cycle lazy_callback_fired [of s "\<lambda>i. data_loaded (images s i)" ?es] by simp
  have o: "set (lazy_observed (lazy_step s ev)) = set (lazy_observed s) - set ?gone"
    using Cycle by (simp add: lazy_callback_observed)
  have c: "count_list ?new t \<le> 1"
    using queued_reports [of ?P "lazy_observed s" batch t] assms(2) Cycle by simp
  have sub: "set ?new \<subseteq> set ?gone" "set ?gone \<subseteq> set (lazy_observed s)"
    by (auto simp: queued_def)
  show ?thesis
    unfolding f using once_step [OF assms(1) sub o c] .
next
  case (Loaded i)
  then show ?thesis using assms(1) by simp
next
  case (Failed i)
  then show ?thesis using assms(1) by simp
qed

lemma lazy_run_once:
  assumes "once t (lazy_fired s) (lazy_observed s)"
    and "\<forall>ev\<in>set evs. reports t (batch_of ev) \<le> 1"
  shows "once t (lazy_fired (foldl lazy_step s evs)) (lazy_observed (foldl lazy_step s evs))"
  using assms
proof (induction evs arbitrary: s)
  case Nil
  then show ?case by simp
next
  case (Cons ev evs)
  have "once t (lazy_fired (lazy_step s ev)) (lazy_observed (lazy_step s ev))"
    using Cons.prems by (simp add: lazy_step_once)
  then show ?case using Cons.IH Cons.prems by simp
qed

subsection \<open>A fired element is no longer observed\<close>

lemma aos_cycle_unobserved:
  assumes "set (aos_fired s) \<inter> set (aos_observed s) = {}"
  shows "set (aos_fired (aos_cycle s batch)) \<inter> set (aos_observed (aos_cycle s batch)) = {}"
  using assms by (auto simp: aos_cycle_def aos_callback_fired aos_callback_observed)

lemma aos_run_unobserved:
  "set (aos_fired s) \<inter> set (aos_observed s) = {} \<Longrightarrow>
   set (aos_fired (foldl aos_cycle s bs)) \<inter> set (aos_observed (foldl aos_cycle s bs)) = {}"
proof (induction bs arbitrary: s)
  case Nil
  then show ?case by simp
next
  case (Cons b bs)
  from Cons.IH [OF aos_cycle_unobserved [OF Cons.prems]] show ?case by simp
qed

lemma lazy_step_unobserved:
  assumes "set (lazy_fired s) \<inter> set (lazy_observed s) = {}"
  shows "set (lazy_fired (lazy_step s ev)) \<inter> set (lazy_observed (lazy_step s ev)) = {}"
proof (cases ev)
  case (Cycle batch)
  have "lazy_fired (lazy_step s ev) = lazy_fired s @ map target (filter (\<lambda>e. isIntersecting e \<and>
          data_loaded (images s (target e)) \<noteq> Some ''true'') (queued (lazy_observed s) batch))"
    using Cycle lazy_callback_fired [of s "\<lambda>i. data_loaded (images s i)"] by simp
  then show ?thesis
    using assms Cycle by (auto simp: lazy_callback_observed)
next
  case (Loaded i)
  then show ?thesis using assms by simp
next
  case (Failed i)
  then show ?thesis using assms by simp
qed

lemma lazy_run_unobserved:
  "set (lazy_fired s) \<inter> set (lazy_observed s) = {} \<Longrightarrow>
   set (lazy_fired (foldl lazy_step s evs)) \<inter> set (lazy_observed (foldl lazy_step s evs)) = {}"
proof (induction evs arbitrary: s)
  case Nil
  then show ?case by simp
next
  case (Cons ev evs)
  from Cons.IH [OF lazy_step_unobserved [OF Cons.prems]] show ?case by simp
qed

text \<open>
  C3, as the code has it. For the animated elements (rewrite) and for the lazy images
  (both files), over every run of check cycles: the body of
  \<^verbatim>\<open>if (entry.isIntersecting)\<close> runs only for an element that was registered and that
  some batch reported as intersecting, that is, as having crossed the configured
  threshold; an element for which it ran is no longer observed, so no later check cycle
  reports it; and it runs at most once for an element that no single batch reports as
  intersecting more than once. Neither callback remembers that an element has fired:
  inside one batch the body runs once per intersecting entry.
\<close>

theorem C3_visible_callback_once_per_report:
  "((\<forall>b\<in>set bs. reports t b \<le> 1) \<longrightarrow>
      count_list (aos_fired (foldl aos_cycle (initAosFallback els) bs)) t \<le> 1)
   \<and> (t \<in> set (aos_fired (foldl aos_cycle (initAosFallback els) bs)) \<longrightarrow>
        t \<notin> set (aos_observed (foldl aos_cycle (initAosFallback els) bs))
        \<and> t \<in> set els
        \<and> (\<exists>b\<in>set bs. \<lparr>target = t, isIntersecting = True\<rparr> \<in> set b))
   \<and> ((\<forall>ev\<in>set evs. reports i (batch_of ev) \<le> 1) \<longrightarrow>
      count_list (lazy_fired (foldl lazy_step (initLazyLoading imgs lazyImages) evs)) i \<le> 1)
   \<and> (i \<in> set (lazy_fired (foldl lazy_step (initLazyLoading imgs lazyImages) evs)) \<longrightarrow>
        i \<notin> set (lazy_observed (foldl lazy_step (initLazyLoading imgs lazyImages) evs))
        \<and> i \<in> set lazyImages
        \<and> (\<exists>ev\<in>set evs. \<lparr>target = i, isIntersecting = True\<rparr> \<in> set (batch_of ev)))"
proof (intro conjI impI)
  let ?a = "foldl aos_cycle (initAosFallback els) bs"
  let ?l = "foldl lazy_step (initLazyLoading imgs lazyImages) evs"
  have a0: "once t (aos_fired (initAosFallback els)) (aos_observed (initAosFallback els))"
    by (simp add: once_def initAosFallback_def)
  have l0: "once i (lazy_fired (initLazyLoading imgs lazyImages))
              (lazy_observed (initLazyLoading imgs lazyImages))"
    by (simp add: once_def initLazyLoading_def)
  have ua: "set (aos_fired ?a) \<inter> set (aos_observed ?a) = {}"
    by (rule aos_run_unobserved) (simp add: initAosFallback_def)
  have ul: "set (lazy_fired ?l) \<inter> set (lazy_observed ?l) = {}"
    by (rule lazy_run_unobserved) (simp add: initLazyLoading_def)
  {
    assume "\<forall>b\<in>set bs. reports t b \<le> 1"
    with a0 have "once t (aos_fired ?a) (aos_observed ?a)" by (rule aos_run_once)
    then show "count_list (aos_fired ?a) t \<le> 1" by (simp add: once_def)
  }
  {
    assume "\<forall>ev\<in>set evs. reports i (batch_of ev) \<le> 1"
    with l0 have "once i (lazy_fired ?l) (lazy_observed ?l)" by (rule lazy_run_once)
    then show "count_list (lazy_fired ?l) i \<le> 1" by (simp add: once_def)
  }
  {
    assume f: "t \<in> set (aos_fired ?a)"
    show "t \<notin> set (aos_observed ?a)" using ua f by auto
    show "t \<in> set els" "\<exists>b\<in>set bs. \<lparr>target = t, isIntersecting = True\<rparr> \<in> set b"
      using aos_run_fired_reported [OF f] by (simp_all add: initAosFallback_def set_observe_all)
  }
  {
    assume f: "i \<in> set (lazy_fired ?l)"
    show "i \<notin> set (lazy_observed ?l)" using ul f by auto
    show "i \<in> set lazyImages"
      "\<exists>ev\<in>set evs. \<lparr>target = i, isIntersecting = True\<rparr> \<in> set (batch_of ev)"
      using lazy_run_fired_reported [OF f] by (simp_all add: initLazyLoading_def set_observe_all)
  }
qed

theorem C3_visible_callback_once_per_report_witness:
  "aos_fired (foldl aos_cycle (initAosFallback [1, 2, 3]) bs0) = [2, 1]
   \<and> count_list (aos_fired (foldl aos_cycle (initAosFallback [1, 2, 3]) bs0)) 2 \<le> 1
   \<and> aos_observed (foldl aos_cycle (initAosFallback [1, 2, 3]) bs0) = [3]
   \<and> lazy_fired (foldl lazy_step (initLazyLoading imgs0 [1, 2]) evs0) = [1, 2]
   \<and> count_list (lazy_fired (foldl lazy_step (initLazyLoading imgs0 [1, 2]) evs0)) 1 \<le> 1
   \<and> lazy_observed (foldl lazy_step (initLazyLoading imgs0 [1, 2]) evs0) = []"
proof -
  have h1: "\<forall>b\<in>set bs0. reports 2 b \<le> 1"
    by (simp add: bs0_def reports_def)
  have h2: "\<forall>ev\<in>set evs0. reports 1 (batch_of ev) \<le> 1"
    by (simp add: evs0_def reports_def)
  have a: "aos_fired (foldl aos_cycle (initAosFallback [1, 2, 3]) bs0) = [2, 1]"
    "aos_observed (foldl aos_cycle (initAosFallback [1, 2, 3]) bs0) = [3]"
    by (simp_all add: bs0_def initAosFallback_def aos_cycle_def queued_def observe_def
        unobserve_def)
  have l: "lazy_fired (foldl lazy_step (initLazyLoading imgs0 [1, 2]) evs0) = [1, 2]"
    "lazy_observed (foldl lazy_step (initLazyLoading imgs0 [1, 2]) evs0) = []"
    by (simp_all add: evs0_def imgs0_def initLazyLoading_def queued_def observe_def
        unobserve_def load_image_def img_onload_def)
  from C3_visible_callback_once_per_report [of bs0 2 "[1, 2, 3]" evs0 1 imgs0 "[1, 2]"] h1 h2
  have "count_list (aos_fired (foldl aos_cycle (initAosFallback [1, 2, 3]) bs0)) 2 \<le> 1"
    "count_list (lazy_fired (foldl lazy_step (initLazyLoading imgs0 [1, 2]) evs0)) 1 \<le> 1"
    by blast+
  with a l show ?thesis by simp
qed

text \<open>
  The claim as the spec words it fails when one batch reports an element as intersecting
  twice: the element entered, left and entered the viewport again before the callback
  ran. The body then runs twice for it, in the animated-element callback and in the
  lazy-image callback alike.
\<close>

theorem C3_flicker_fires_twice:
  "aos_fired (foldl aos_cycle (initAosFallback [1]) [flicker]) = [1, 1]
   \<and> count_list (aos_fired (foldl aos_cycle (initAosFallback [1]) [flicker])) 1 = 2
   \<and> lazy_fired (foldl lazy_step (initLazyLoading imgs0 [1]) [Cycle flicker]) = [1, 1]
   \<and> count_list (lazy_fired (foldl lazy_step (initLazyLoading imgs0 [1]) [Cycle flicker])) 1 = 2"
  by (simp add: flicker_def imgs0_def initAosFallback_def initLazyLoading_def aos_cycle_def
      queued_def observe_def unobserve_def load_image_def)

section \<open>Properties of the countdown\<close>

lemma digit_numeric: "n < 10 \<Longrightarrow> digit n \<in> set ''0123456789''"
  unfolding digit_def by (rule nth_mem) simp

lemma show_nat_digits: "list_all (\<lambda>c. c \<in> set ''0123456789'') (show_nat n)"
proof (induction n rule: show_nat.induct)
  case (1 n)
  show ?case
  proof (cases "n < 10")
    case True
    then have "show_nat n = [digit n]"
      by (subst show_nat.simps) simp
    then show ?thesis
      using digit_numeric [OF True] by (simp del: set_simps)
  next
    case False
    then have "show_nat n = show_nat (n div 10) @ [digit (n mod 10)]"
      by (subst show_nat.simps) simp
    moreover have "digit (n mod 10) \<in> set ''0123456789''"
      by (rule digit_numeric) simp
    ultimately show ?thesis
      using 1 False by (simp del: set_simps)
  qed
qed

lemma show_nat_nonempty: "show_nat n \<noteq> []"
  by (subst show_nat.simps) simp

lemma zeros_numeric: "list_all (\<lambda>c. c \<in> set ''0123456789'') (replicate k CHR ''0'')"
  by (induction k) simp_all

lemma numeric_padStart2: "0 \<le> n \<Longrightarrow> numeric (padStart2 (toString (Num n)))"
  using show_nat_digits [of "nat n"] show_nat_nonempty [of "nat n"]
    zeros_numeric [of "2 - length (show_nat (nat n))"]
  by (simp add: numeric_def padStart2_def del: set_simps)

lemma js_rem_nonneg: "0 \<le> a \<Longrightarrow> 0 < m \<Longrightarrow> js_rem a m = a mod m"
  by (cases "a = 0") (simp_all add: js_rem_def)

lemma unit_ok_written: "0 \<le> n \<Longrightarrow> unit_ok old (map_option (\<lambda>_. padStart2 (toString (Num n))) old)"
  using numeric_padStart2 [of n] by (cases old) (simp_all add: unit_ok_def del: toString.simps)

text \<open>
  The rewrite re-initialises on an unparsable and on an elapsed target, and then renders
  nothing: the attribute becomes the ISO string of \<open>now + 4 days\<close>, exactly.
\<close>

lemma updateCountdown_opt_reinit:
  assumes "s \<noteq> []" and "parse s = None \<or> (\<exists>t. parse s = Some t \<and> t \<le> now - 1)"
  shows "updateCountdown_opt parse toISOString now (d\<lparr>cta_timer := Some (Some s)\<rparr>) =
           Inr (d\<lparr>cta_timer := Some (Some (toISOString (now + 345600000)))\<rparr>)"
  using assms by (auto simp: updateCountdown_opt_def getTime_def fourDaysMs_def Let_def)

text \<open>\<^verbatim>\<open>script.js\<close> re-initialises on an elapsed target as well.\<close>

lemma updateCountdown_elapsed:
  assumes "s \<noteq> []" and "parse s = Some t" and "t \<le> now - 1"
  shows "updateCountdown parse toISOString now (d\<lparr>cta_timer := Some (Some s)\<rparr>) =
           Inr (d\<lparr>cta_timer := Some (Some (toISOString (now + 345600000)))\<rparr>)"
  using assms by (simp add: updateCountdown_def getTime_def fourDaysMs_def Let_def)

text \<open>
  Whatever the attribute holds, the rewrite never throws and never leaves a negative or
  non-numeric text in a unit element that it writes.
\<close>

lemma units_nonneg:
  assumes "0 \<le> a"
  shows "0 \<le> a div 86400000" "0 \<le> js_rem a 86400000 div 3600000"
    "0 \<le> js_rem a 3600000 div 60000" "0 \<le> js_rem a 60000 div 1000"
  using assms by (simp_all add: js_rem_nonneg pos_imp_zdiv_nonneg_iff)

lemma render_units_opt_fields:
  "el_days (render_units_opt (Num a) d) =
     map_option (\<lambda>_. padStart2 (toString (Num (a div 86400000)))) (el_days d)"
  "el_hours (render_units_opt (Num a) d) =
     map_option (\<lambda>_. padStart2 (toString (Num (js_rem a 86400000 div 3600000)))) (el_hours d)"
  "el_minutes (render_units_opt (Num a) d) =
     map_option (\<lambda>_. padStart2 (toString (Num (js_rem a 3600000 div 60000)))) (el_minutes d)"
  "el_seconds (render_units_opt (Num a) d) =
     map_option (\<lambda>_. padStart2 (toString (Num (js_rem a 60000 div 1000)))) (el_seconds d)"
  by (simp_all add: render_units_opt_def Let_def del: toString.simps)

lemma render_units_opt_ok:
  assumes "0 \<le> a"
  shows "unit_ok (el_days d) (el_days (render_units_opt (Num a) d))
       \<and> unit_ok (el_hours d) (el_hours (render_units_opt (Num a) d))
       \<and> unit_ok (el_minutes d) (el_minutes (render_units_opt (Num a) d))
       \<and> unit_ok (el_seconds d) (el_seconds (render_units_opt (Num a) d))"
  unfolding render_units_opt_fields
  by (intro conjI unit_ok_written units_nonneg assms)

lemma updateCountdown_opt_units:
  "\<exists>d'. updateCountdown_opt parse toISOString now d = Inr d'
        \<and> unit_ok (el_days d) (el_days d') \<and> unit_ok (el_hours d) (el_hours d')
        \<and> unit_ok (el_minutes d) (el_minutes d') \<and> unit_ok (el_seconds d) (el_seconds d')"
proof (cases "\<exists>s t. cta_timer d = Some (Some s) \<and> s \<noteq> [] \<and> parse s = Some t \<and> now \<le> t")
  case True
  then obtain s t where h: "cta_timer d = Some (Some s)" "s \<noteq> []" "parse s = Some t" "now \<le> t"
    by blast
  then have "updateCountdown_opt parse toISOString now d = Inr (render_units_opt (Num (t - now)) d)"
    by (simp add: updateCountdown_opt_def getTime_def Let_def)
  moreover have "0 \<le> t - now" using h(4) by simp
  ultimately show ?thesis
    using render_units_opt_ok [of "t - now" d] by simp
next
  case False
  then have "updateCountdown_opt parse toISOString now d = Inr d
      \<or> updateCountdown_opt parse toISOString now d =
           Inr (d\<lparr>cta_timer := Some (Some (toISOString (now + fourDaysMs)))\<rparr>)"
    by (auto simp: updateCountdown_opt_def getTime_def Let_def split: option.splits)
  then show ?thesis
    by (auto simp: unit_ok_def)
qed

text \<open>
  C4 at the failing input, in \<^verbatim>\<open>script.js\<close>: the attribute holds a string that the
  platform cannot parse (\<^verbatim>\<open>getTime()\<close> is \<^verbatim>\<open>NaN\<close>). \<^verbatim>\<open>NaN < 0\<close> is false, so the
  target is not re-initialised and all four units are rendered as \<^verbatim>\<open>NaN\<close>. The rewrite,
  at the same input, writes the new target and renders nothing.
\<close>

theorem C4_script_unparsable_renders_NaN:
  "updateCountdown (\<lambda>s. None) toISOString now countdown0 =
     Inr (countdown0\<lparr>el_days := Some ''NaN'', el_hours := Some ''NaN'',
                     el_minutes := Some ''NaN'', el_seconds := Some ''NaN''\<rparr>)
   \<and> \<not> numeric ''NaN''
   \<and> updateCountdown_opt (\<lambda>s. None) toISOString now countdown0 =
       Inr (countdown0\<lparr>cta_timer := Some (Some (toISOString (now + 345600000)))\<rparr>)"
  by (simp add: updateCountdown_def updateCountdown_opt_def render_units_def getTime_def
      countdown0_def padStart2_def numeric_def fourDaysMs_def Let_def)

section \<open>Properties of the optional elements\<close>

text \<open>In the rewrite a missing element never makes a set-up step or a handler throw.\<close>

lemma rewrite_never_throws:
  "fst (script_toplevel_opt p) = None
   \<and> (\<exists>r. outside_click_opt accordion inside = Inr r)
   \<and> (\<exists>d'. updateCountdown_opt parse toISOString now d = Inr d')"
  using updateCountdown_opt_units [of parse toISOString now d]
  by (auto simp: script_toplevel_opt_def outside_click_opt_def split: option.split)

text \<open>
  C5 at the failing input, in \<^verbatim>\<open>script.js\<close>: a page without back-to-top button and
  without accordion. Evaluating the script throws at line 542, so the countdown, the
  pricing hover, the back-to-top spacing and the outbound tagger are never set up; every
  scroll event throws in \<^verbatim>\<open>toggleBackToTopButton\<close>; every document click throws in the
  accordion's outside-click listener. A missing countdown container and an empty set of
  animated elements are handled silently. The rewrite completes in all these cases.
\<close>

theorem C5_script_missing_elements_throw:
  "script_toplevel (page0\<lparr>backToTopBtn := None\<rparr>) = (Some TypeError, [ScrollToggle])
   \<and> toggleBackToTopButton (page0\<lparr>backToTopBtn := None\<rparr>) = Inl TypeError
   \<and> outside_click None False = Inl TypeError
   \<and> outside_click None True = Inl TypeError
   \<and> updateCountdown parse toISOString now (countdown0\<lparr>cta_timer := None\<rparr>) =
       Inr (countdown0\<lparr>cta_timer := None\<rparr>)
   \<and> init_animated 0 = Inr ()
   \<and> script_toplevel_opt (page0\<lparr>backToTopBtn := None\<rparr>) =
       (None, [CountdownLoad, PricingHover, BackToTopHeight, OutboundTracking])
   \<and> outside_click_opt None False = Inr None"
  by (simp add: script_toplevel_def script_toplevel_opt_def toggleBackToTopButton_def
      outside_click_def outside_click_opt_def updateCountdown_def init_animated_def
      page0_def)

section \<open>Properties of the outbound link tagger\<close>

subsection \<open>Search parameters\<close>












subsection \<open>Substrings\<close>




subsection \<open>Tagging one link\<close>
















end
